theory Spec2Isabelle
  imports Complex_Main
begin

section \<open>Replaying a timestamped request log: the model of load_tester.py\<close>

text \<open>
  The development follows \<^verbatim>\<open>load_tester.py\<close>. Python exceptions are values of
  the type \<open>error\<close>; a function that may raise returns \<open>error + 'a\<close> (\<open>Inl\<close> the
  exception). Python's floats are idealised as rationals: \<open>/\<close> is exact division, and a
  division by zero is the branch \<open>Inl ZeroDivisionError\<close>, never HOL's \<open>x / 0 = 0\<close>.
\<close>

datatype error =
    ZeroDivisionError
  | KeyError
  | TypeError
  | OverflowError
  | UnboundLocalError
  | CancelledError
  | ClientError string

subsection \<open>Response and ElasticsearchResponseAccumulator\<close>

text \<open>
  \<^verbatim>\<open>Response(status, json)\<close>. The parsed body is a dictionary; only its integer-valued
  entries are modelled (Elasticsearch reports \<^verbatim>\<open>took\<close> as an integer number of
  milliseconds), and a key that is absent raises \<^verbatim>\<open>KeyError\<close> on lookup.
\<close>

type_synonym json_object = "string \<rightharpoonup> int"

record response =
  status :: int
  json :: json_object

text \<open>
  \<^verbatim>\<open>collections.Counter\<close>: a dictionary of counts in which a missing key reads as 0;
  \<^verbatim>\<open>update([k])\<close> adds one to the count of \<open>k\<close>.
\<close>

type_synonym counter = "int \<rightharpoonup> nat"

definition counter_get :: "counter \<Rightarrow> int \<Rightarrow> nat" where
  "counter_get c k = (case c k of None \<Rightarrow> 0 | Some n \<Rightarrow> n)"

definition counter_update :: "counter \<Rightarrow> int list \<Rightarrow> counter" where
  "counter_update c ks = foldl (\<lambda>m k. m(k \<mapsto> counter_get m k + 1)) c ks"

record accumulator =
  total_took_time :: int
  completion_status_counts :: counter

text \<open>\<^verbatim>\<open>ElasticsearchResponseAccumulator.__init__\<close>\<close>

definition accumulator_init :: accumulator where
  "accumulator_init = \<lparr>total_took_time = 0, completion_status_counts = Map.empty\<rparr>"

text \<open>
  \<^verbatim>\<open>process_response_information\<close> mutates the accumulator and may raise after the
  counter has been updated, so the model returns the exception (if any) together with the
  accumulator as the call leaves it.
\<close>

definition process_response_information ::
    "accumulator \<Rightarrow> response \<Rightarrow> error option \<times> accumulator" where
  "process_response_information acc r =
     (let acc1 = acc\<lparr>completion_status_counts :=
                       counter_update (completion_status_counts acc) [status r]\<rparr>
      in if status r = 200
         then (case json r ''took'' of
                 None \<Rightarrow> (Some KeyError, acc1)
               | Some took \<Rightarrow> (None, acc1\<lparr>total_took_time := total_took_time acc1 + took\<rparr>))
         else (None, acc1))"

text \<open>
  The accumulator after the completion callbacks of the given responses have run, in
  order. Each callback is a call of its own: an exception raised in one of them goes to
  the event loop's exception handler and does not keep the later ones from running.
\<close>

fun process_all :: "accumulator \<Rightarrow> response list \<Rightarrow> accumulator" where
  "process_all acc [] = acc"
| "process_all acc (r # rs) = process_all (snd (process_response_information acc r)) rs"

record summary =
  summary_completion_status_counts :: counter
  average_time_per_successful_request :: rat

text \<open>
  \<^verbatim>\<open>get_summary\<close>: \<^verbatim>\<open>total_took_time / completion_status_counts[200]\<close> is Python's
  true division, which raises \<^verbatim>\<open>ZeroDivisionError\<close> for a zero divisor.
\<close>

definition get_summary :: "accumulator \<Rightarrow> error + summary" where
  "get_summary acc =
     (if counter_get (completion_status_counts acc) 200 = 0 then Inl ZeroDivisionError
      else Inr \<lparr>summary_completion_status_counts = completion_status_counts acc,
                average_time_per_successful_request =
                  of_int (total_took_time acc) /
                  of_nat (counter_get (completion_status_counts acc) 200)\<rparr>)"

subsection \<open>Instants and durations\<close>

text \<open>
  A naive \<^verbatim>\<open>datetime\<close> is a count of microseconds since \<^verbatim>\<open>datetime.min\<close>
  (0001-01-01 00:00:00), at most \<^verbatim>\<open>datetime.max\<close> (9999-12-31 23:59:59.999999);
  a \<^verbatim>\<open>timedelta\<close> is a signed count of microseconds. The difference of two
  datetimes always fits a timedelta; \<^verbatim>\<open>datetime - timedelta\<close> raises
  \<^verbatim>\<open>OverflowError\<close> when the result leaves the range of datetime.
\<close>

type_synonym datetime = int
type_synonym timedelta = int

definition datetime_min :: datetime where
  "datetime_min = 0"

definition datetime_max :: datetime where
  "datetime_max = 315537897599999999"

definition total_seconds :: "timedelta \<Rightarrow> rat" where
  "total_seconds d = of_int d / 1000000"

definition datetime_sub_timedelta :: "datetime \<Rightarrow> timedelta \<Rightarrow> error + datetime" where
  "datetime_sub_timedelta t d =
     (if t - d < datetime_min \<or> datetime_max < t - d then Inl OverflowError else Inr (t - d))"

subsection \<open>Request and LoadTester\<close>

record request =
  timestamp :: datetime
  http_method :: string
  url_path :: string
  json_body :: string

text \<open>
  The fields of \<^verbatim>\<open>LoadTester\<close> that the replay reads or writes. The event loop is
  implicit, the sink is passed to the callback, and the request generator factory is the
  list of events that one pass over the log yields.
\<close>

record load_tester =
  host :: string
  port :: string
  speed_multiplier :: rat
  log_initial_time :: datetime
  real_initial_time :: "datetime option"
  log_delta_time :: timedelta

text \<open>\<^verbatim>\<open>LoadTester.__init__\<close>: both sentinels mean "not evaluated yet".\<close>

definition load_tester_init :: "string \<Rightarrow> string \<Rightarrow> rat \<Rightarrow> load_tester" where
  "load_tester_init h p m =
     \<lparr>host = h, port = p, speed_multiplier = m,
      log_initial_time = datetime_min, real_initial_time = None, log_delta_time = 0\<rparr>"

text \<open>
  \<^verbatim>\<open>_get_sleep_time(log_time)\<close>; \<open>now\<close> is what \<^verbatim>\<open>datetime.datetime.now()\<close>
  returns in this call. Subtracting \<^verbatim>\<open>None\<close> from a datetime raises
  \<^verbatim>\<open>TypeError\<close>; dividing by a zero multiplier raises \<^verbatim>\<open>ZeroDivisionError\<close>.
\<close>

definition get_sleep_time ::
    "load_tester \<Rightarrow> datetime \<Rightarrow> datetime \<Rightarrow> error + (rat \<times> load_tester)" where
  "get_sleep_time lt log_time now =
     (let lt1 = (if log_initial_time lt = datetime_min
                 then lt\<lparr>log_initial_time := log_time\<rparr> else lt);
          real_time = now;
          log_time_passed_secs = total_seconds (log_time - log_initial_time lt1)
      in case real_initial_time lt1 of
           None \<Rightarrow> Inl TypeError
         | Some rit \<Rightarrow>
             (let scaled_time_passed = total_seconds (real_time - rit) * speed_multiplier lt1;
                  scaled_time_till_next_event = log_time_passed_secs - scaled_time_passed
              in if speed_multiplier lt1 = 0 then Inl ZeroDivisionError
                 else Inr (scaled_time_till_next_event / speed_multiplier lt1, lt1)))"

text \<open>The dictionary that \<^verbatim>\<open>_requests\<close> yields for one event.\<close>

record yielded =
  url :: string
  body :: string
  sleep_time :: rat

definition format_url :: "load_tester \<Rightarrow> request \<Rightarrow> string" where
  "format_url lt r = ''http://'' @ host lt @ '':'' @ port lt @ ''/'' @ url_path r"

text \<open>
  The head of one pass of \<^verbatim>\<open>while True\<close> in \<^verbatim>\<open>_requests\<close>, up to the
  \<^verbatim>\<open>for\<close> loop. \<open>prev\<close> is the generator's local variable \<^verbatim>\<open>request\<close>: the
  last event of the previous pass, unbound (\<open>None\<close>) when no event has been seen.
  \<open>now\<close> is read only when \<^verbatim>\<open>real_initial_time\<close> is still \<^verbatim>\<open>None\<close>.
\<close>

definition cycle_start ::
    "load_tester \<Rightarrow> request option \<Rightarrow> datetime \<Rightarrow> error + load_tester" where
  "cycle_start lt prev now =
     (case (if real_initial_time lt = None then Inr (lt\<lparr>real_initial_time := Some now\<rparr>)
            else if log_delta_time lt = 0
            then (case prev of
                    None \<Rightarrow> Inl UnboundLocalError
                  | Some r \<Rightarrow> Inr (lt\<lparr>log_delta_time := timestamp r - log_initial_time lt\<rparr>))
            else Inr lt) of
        Inl e \<Rightarrow> Inl e
      | Inr lt1 \<Rightarrow>
          (case datetime_sub_timedelta (log_initial_time lt1) (log_delta_time lt1) of
             Inl e \<Rightarrow> Inl e
           | Inr t \<Rightarrow> Inr (lt1\<lparr>log_initial_time := t\<rparr>)))"

text \<open>
  The \<^verbatim>\<open>for request in request_generator\<close> loop: each event comes with the reading
  of the clock taken while its sleep time is computed. The result is the dictionaries
  yielded so far and either the exception that ended the generator or the tester and the
  local \<^verbatim>\<open>request\<close> as the loop leaves them.
\<close>

fun for_requests ::
    "load_tester \<Rightarrow> request option \<Rightarrow> (request \<times> datetime) list \<Rightarrow>
     yielded list \<times> (error + load_tester \<times> request option)" where
  "for_requests lt prev [] = ([], Inr (lt, prev))"
| "for_requests lt prev ((r, now) # evs) =
     (case get_sleep_time lt (timestamp r) now of
        Inl e \<Rightarrow> ([], Inl e)
      | Inr (st, lt1) \<Rightarrow>
          (case for_requests lt1 (Some r) evs of
             (ys, res) \<Rightarrow>
               (\<lparr>url = format_url lt r, body = json_body r, sleep_time = st\<rparr> # ys, res)))"

text \<open>One pass of \<^verbatim>\<open>while True\<close>: the head, then the events of one pass over the log.\<close>

definition requests_cycle ::
    "load_tester \<Rightarrow> request option \<Rightarrow> datetime \<Rightarrow> (request \<times> datetime) list \<Rightarrow>
     yielded list \<times> (error + load_tester \<times> request option)" where
  "requests_cycle lt prev now evs =
     (case cycle_start lt prev now of
        Inl e \<Rightarrow> ([], Inl e)
      | Inr lt1 \<Rightarrow> for_requests lt1 prev evs)"

text \<open>
  \<^verbatim>\<open>_requests\<close> over a finite number of passes, one list element per pass: the
  output of the generator up to the end of the last pass given.
\<close>

fun requests ::
    "load_tester \<Rightarrow> request option \<Rightarrow> (datetime \<times> (request \<times> datetime) list) list \<Rightarrow>
     yielded list \<times> (error + load_tester \<times> request option)" where
  "requests lt prev [] = ([], Inr (lt, prev))"
| "requests lt prev ((now, evs) # cycles) =
     (case requests_cycle lt prev now evs of
        (ys, Inl e) \<Rightarrow> (ys, Inl e)
      | (ys, Inr (lt1, prev1)) \<Rightarrow>
          (case requests lt1 prev1 cycles of (zs, res) \<Rightarrow> (ys @ zs, res)))"

subsection \<open>The pacing loop of run\<close>

text \<open>
  What the loop does to its environment, in order: it takes the next dictionary from the
  generator, reads \<^verbatim>\<open>time.time()\<close>, awaits \<^verbatim>\<open>asyncio.sleep(d)\<close>, and schedules
  \<^verbatim>\<open>_fetch(session, url, body)\<close> with \<^verbatim>\<open>asyncio.ensure_future\<close>.
\<close>

datatype effect =
    Pull yielded
  | ReadClock rat
  | Sleep rat
  | Dispatch string string

text \<open>
  The loop ends only by \<^verbatim>\<open>break\<close>, with the locals \<^verbatim>\<open>delta_secs\<close>,
  \<^verbatim>\<open>request\<close> and \<^verbatim>\<open>num_sent_requests\<close> as they are then. The generator is
  endless, so a finite list of its items can also be used up with the loop still running.
\<close>

datatype loop_exit =
    Break rat yielded nat "effect list"
  | Running nat "effect list"

text \<open>
  The \<^verbatim>\<open>for request in self._requests()\<close> loop of \<^verbatim>\<open>run\<close>. Each item is a
  dictionary yielded by the generator, paired with the value \<^verbatim>\<open>time.time()\<close> returns
  in that iteration.
\<close>

fun run_loop ::
    "rat \<Rightarrow> rat \<Rightarrow> (yielded \<times> rat) list \<Rightarrow> nat \<Rightarrow> effect list \<Rightarrow> loop_exit" where
  "run_loop run_time_secs start_time [] num_sent effs = Running num_sent effs"
| "run_loop run_time_secs start_time ((request, now) # items) num_sent effs =
     (let delta_secs = now - start_time;
          effs1 = effs @ [Pull request, ReadClock now]
      in if delta_secs \<ge> run_time_secs then Break delta_secs request num_sent effs1
         else run_loop run_time_secs start_time items (num_sent + 1)
                (effs1 @ [Sleep (min (sleep_time request) (run_time_secs - delta_secs)),
                          Dispatch (url request) (body request)]))"

text \<open>
  The loop as the specification words it: pull, sleep for the duration clamped at zero,
  then compare the elapsed time with the budget, and dispatch only if the budget is not
  exhausted.
\<close>

fun spec_running_loop ::
    "rat \<Rightarrow> rat \<Rightarrow> (yielded \<times> rat) list \<Rightarrow> nat \<Rightarrow> effect list \<Rightarrow> loop_exit" where
  "spec_running_loop budget start_time [] num_sent effs = Running num_sent effs"
| "spec_running_loop budget start_time ((request, now) # items) num_sent effs =
     (let effs1 = effs @ [Pull request, Sleep (max (sleep_time request) 0), ReadClock now];
          elapsed = now - start_time
      in if elapsed \<ge> budget then Break elapsed request num_sent effs1
         else spec_running_loop budget start_time items (num_sent + 1)
                (effs1 @ [Dispatch (url request) (body request)]))"

subsection \<open>Draining and the statistics of run\<close>

text \<open>
  A task as \<^verbatim>\<open>asyncio.all_tasks()\<close> returns it: whether it is done, whether it is
  the task running \<^verbatim>\<open>run\<close> itself, and what \<^verbatim>\<open>task.cancel(); await task\<close> does
  to the caller: \<open>None\<close> when the await returns, \<open>Some e\<close> when it raises \<open>e\<close>.
\<close>

record task =
  task_done :: bool
  task_is_current :: bool
  task_await :: "error option"

definition pending_tasks :: "task list \<Rightarrow> task list" where
  "pending_tasks all_tasks = filter (\<lambda>t. \<not> task_done t \<and> \<not> task_is_current t) all_tasks"

text \<open>
  The loop over \<^verbatim>\<open>pending_tasks\<close>: \<^verbatim>\<open>except asyncio.CancelledError: pass\<close> goes on
  with the next task, any other exception leaves the loop.
\<close>

fun drain :: "task list \<Rightarrow> error + unit" where
  "drain [] = Inr ()"
| "drain (t # ts) =
     (case task_await t of
        None \<Rightarrow> drain ts
      | Some e \<Rightarrow> if e = CancelledError then drain ts else Inl e)"

record run_stats =
  run_time_minutes :: rat
  num_sent_requests :: nat
  average_requests_per_second :: rat
  num_outstanding_requests :: nat
  seconds_behind :: rat
  percentage_behind :: rat

text \<open>
  The dictionary \<^verbatim>\<open>run\<close> returns. Its entries are evaluated in order, and the first
  division by \<^verbatim>\<open>delta_secs\<close> raises when \<^verbatim>\<open>delta_secs\<close> is zero.
\<close>

definition final_stats :: "rat \<Rightarrow> nat \<Rightarrow> nat \<Rightarrow> yielded \<Rightarrow> error + run_stats" where
  "final_stats delta_secs num_sent num_outstanding request =
     (let behind = max (- sleep_time request) 0
      in if delta_secs = 0 then Inl ZeroDivisionError
         else Inr \<lparr>run_time_minutes = delta_secs / 60,
                   num_sent_requests = num_sent,
                   average_requests_per_second = of_nat num_sent / delta_secs,
                   num_outstanding_requests = num_outstanding,
                   seconds_behind = behind,
                   percentage_behind = behind / delta_secs\<rparr>)"

text \<open>
  \<^verbatim>\<open>run(run_time_minutes)\<close>. \<open>start_time\<close> is the first reading of
  \<^verbatim>\<open>time.time()\<close>, \<open>items\<close> the generator's output with the later readings, and
  \<open>all_tasks\<close> what \<^verbatim>\<open>asyncio.all_tasks()\<close> returns after the loop. The result is
  \<open>None\<close> when the items are used up before the loop breaks.
\<close>

definition run ::
    "rat \<Rightarrow> rat \<Rightarrow> (yielded \<times> rat) list \<Rightarrow> task list \<Rightarrow> (error + run_stats) option" where
  "run run_time_mins start_time items all_tasks =
     (let run_time_secs = run_time_mins * 60
      in case run_loop run_time_secs start_time items 0 [] of
           Running n effs \<Rightarrow> None
         | Break delta_secs request num_sent effs \<Rightarrow>
             Some (let pending = pending_tasks all_tasks;
                       num_outstanding = length pending
                   in case drain pending of
                        Inl e \<Rightarrow> Inl e
                      | Inr u \<Rightarrow> final_stats delta_secs num_sent num_outstanding request))"

subsection \<open>A dispatched unit: fetch and callback\<close>

text \<open>
  What the transport gives \<^verbatim>\<open>_fetch\<close>: \<^verbatim>\<open>session.post\<close> either raises or
  returns a response with its status, whose \<^verbatim>\<open>json()\<close> either raises or returns the
  parsed body.
\<close>

record http_response =
  http_status :: int
  http_json :: "error + json_object"

definition fetch :: "error + http_response \<Rightarrow> error + response" where
  "fetch posted =
     (case posted of
        Inl e \<Rightarrow> Inl e
      | Inr resp \<Rightarrow>
          (case http_json resp of
             Inl e \<Rightarrow> Inl e
           | Inr j \<Rightarrow> Inr \<lparr>status = http_status resp, json = j\<rparr>))"

text \<open>
  The future of the task that runs \<^verbatim>\<open>_fetch\<close>, once it is done: it holds the value
  returned, or the exception raised, or it has been cancelled (also when the coroutine
  ends with \<^verbatim>\<open>CancelledError\<close>).
\<close>

datatype future =
    FutResult response
  | FutException error
  | FutCancelled

definition fetch_task :: "bool \<Rightarrow> error + http_response \<Rightarrow> future" where
  "fetch_task cancelled posted =
     (if cancelled then FutCancelled
      else case fetch posted of
             Inr r \<Rightarrow> FutResult r
           | Inl e \<Rightarrow> if e = CancelledError then FutCancelled else FutException e)"




text \<open>
  \<^verbatim>\<open>await task\<close> on a task that is done: it returns the result or raises the
  exception the future holds (\<open>None\<close> when it returns). On a done task
  \<^verbatim>\<open>task.cancel()\<close> changes nothing.
\<close>

definition await_done :: "future \<Rightarrow> error option" where
  "await_done fut =
     (case fut of
        FutResult r \<Rightarrow> None
      | FutException e \<Rightarrow> Some e
      | FutCancelled \<Rightarrow> Some CancelledError)"

text \<open>
  A unit that was still running when \<^verbatim>\<open>run\<close> listed the pending tasks and that
  completed by itself, with the future \<open>fut\<close>, before the loop over the pending tasks
  reached its \<^verbatim>\<open>task.cancel()\<close> (the loop awaits the tasks before it one at a time).
\<close>

definition completed_before_cancel :: "future \<Rightarrow> task" where
  "completed_before_cancel fut =
     \<lparr>task_done = False, task_is_current = False, task_await = await_done fut\<rparr>"

subsection \<open>Observations used in the statements\<close>

text \<open>
  The sum of \<^verbatim>\<open>took\<close> over the responses with status 200 that carry it: what the
  latency total of the accumulator is compared with.
\<close>

fun successful_took :: "response list \<Rightarrow> int" where
  "successful_took [] = 0"
| "successful_took (r # rs) =
     (if status r = 200 then (case json r ''took'' of None \<Rightarrow> 0 | Some t \<Rightarrow> t) else 0)
     + successful_took rs"

text \<open>The effects performed when the loop is left, and the fetches scheduled among them.\<close>

fun effects_of :: "loop_exit \<Rightarrow> effect list" where
  "effects_of (Break delta_secs request num_sent effs) = effs"
| "effects_of (Running num_sent effs) = effs"

fun dispatches :: "effect list \<Rightarrow> (string \<times> string) list" where
  "dispatches [] = []"
| "dispatches (Dispatch u b # effs) = (u, b) # dispatches effs"
| "dispatches (e # effs) = dispatches effs"

text \<open>
  The elapsed time at which each fetch of a trace is scheduled, at the earliest: the
  elapsed time read in its iteration plus the sleep awaited since, \<^verbatim>\<open>asyncio.sleep(d)\<close>
  lasting at least \<open>d\<close> seconds and no time at all for \<open>d \<le> 0\<close>.
\<close>

fun dispatch_elapsed :: "rat \<Rightarrow> effect list \<Rightarrow> rat list" where
  "dispatch_elapsed start_time [] = []"
| "dispatch_elapsed start_time (ReadClock now # Sleep d # Dispatch u b # effs) =
     (now - start_time + max d 0) # dispatch_elapsed start_time effs"
| "dispatch_elapsed start_time (e # effs) = dispatch_elapsed start_time effs"

text \<open>The iterations whose reading of the clock shows the budget not yet used up.\<close>

definition within_budget :: "rat \<Rightarrow> rat \<Rightarrow> yielded \<times> rat \<Rightarrow> bool" where
  "within_budget run_time_secs start_time item = (snd item - start_time < run_time_secs)"

text \<open>
  A trace in which every scheduled fetch comes right after a sleep that follows a reading
  of the clock with the budget not used up, the sleep asked for being no longer than the
  rest of the budget, and in which nothing follows a reading that shows the budget used up.
\<close>

fun checked_before_dispatch :: "rat \<Rightarrow> rat \<Rightarrow> effect list \<Rightarrow> bool" where
  "checked_before_dispatch run_time_secs start_time [] = True"
| "checked_before_dispatch run_time_secs start_time
       (Pull r # ReadClock now # Sleep d # Dispatch u b # effs) =
     (now - start_time < run_time_secs \<and> d \<le> run_time_secs - (now - start_time)
      \<and> checked_before_dispatch run_time_secs start_time effs)"
| "checked_before_dispatch run_time_secs start_time [Pull r, ReadClock now] =
     (now - start_time \<ge> run_time_secs)"
| "checked_before_dispatch run_time_secs start_time effs = False"

text \<open>The effects of one iteration that passes the check, and of the one that breaks.\<close>

definition iteration_effects :: "rat \<Rightarrow> rat \<Rightarrow> yielded \<times> rat \<Rightarrow> effect list" where
  "iteration_effects run_time_secs start_time item =
     [Pull (fst item), ReadClock (snd item),
      Sleep (min (sleep_time (fst item)) (run_time_secs - (snd item - start_time))),
      Dispatch (url (fst item)) (body (fst item))]"

definition breaking_effects :: "(yielded \<times> rat) list \<Rightarrow> effect list" where
  "breaking_effects items =
     (case items of [] \<Rightarrow> [] | item # rest \<Rightarrow> [Pull (fst item), ReadClock (snd item)])"

section \<open>Properties\<close>

subsection \<open>The accumulator\<close>

lemma counter_update_single: "counter_update c [k] = c(k \<mapsto> counter_get c k + 1)"
  by (simp add: counter_update_def)

lemma process_counts:
  "completion_status_counts (snd (process_response_information acc r)) =
     (completion_status_counts acc)
       (status r \<mapsto> counter_get (completion_status_counts acc) (status r) + 1)"
  by (simp add: process_response_information_def counter_update_single Let_def
      split: option.splits)

lemma process_total:
  "total_took_time (snd (process_response_information acc r)) =
     total_took_time acc +
     (if status r = 200 then (case json r ''took'' of None \<Rightarrow> 0 | Some t \<Rightarrow> t) else 0)"
  by (simp add: process_response_information_def Let_def split: option.splits)

lemma process_raises:
  "fst (process_response_information acc r) =
     (if status r = 200 \<and> json r ''took'' = None then Some KeyError else None)"
  by (simp add: process_response_information_def Let_def split: option.splits)

lemma process_all_total:
  "total_took_time (process_all acc rs) = total_took_time acc + successful_took rs"
  by (induction rs arbitrary: acc) (simp_all add: process_total)

lemma process_all_counts:
  "completion_status_counts (process_all acc rs) s =
     (if s \<in> status ` set rs
      then Some (counter_get (completion_status_counts acc) s + count_list (map status rs) s)
      else completion_status_counts acc s)"
proof (induction rs arbitrary: acc)
  case Nil
  show ?case by simp
next
  case (Cons r rs)
  let ?acc1 = "snd (process_response_information acc r)"
  have step: "completion_status_counts (process_all acc (r # rs)) s =
      (if s \<in> status ` set rs
       then Some (counter_get (completion_status_counts ?acc1) s + count_list (map status rs) s)
       else completion_status_counts ?acc1 s)"
    using Cons.IH [of ?acc1] by simp
  show ?case
    unfolding step by (auto simp: process_counts counter_get_def)
qed

lemma counter_get_process_all:
  "counter_get (completion_status_counts (process_all accumulator_init rs)) s =
     count_list (map status rs) s"
proof -
  have "s \<notin> status ` set rs \<Longrightarrow> count_list (map status rs) s = 0"
    by (simp add: count_list_0_iff)
  then show ?thesis
    by (auto simp: process_all_counts counter_get_def accumulator_init_def)
qed

text \<open>
  C5, as the code has it. \<^verbatim>\<open>get_summary\<close> divides by the number of responses with
  status 200 without a guard: it raises \<^verbatim>\<open>ZeroDivisionError\<close> exactly when that number
  is zero, that is when none of the responses processed had status 200, and returns the
  histogram and the average exactly when one of them had.
\<close>

theorem get_summary_raises_iff_no_success:
  "(get_summary acc = Inl ZeroDivisionError) =
     (counter_get (completion_status_counts acc) 200 = 0)
   \<and> (get_summary (process_all accumulator_init rs) = Inl ZeroDivisionError) =
     (count_list (map status rs) 200 = 0)
   \<and> (get_summary (process_all accumulator_init rs) =
        Inr \<lparr>summary_completion_status_counts =
               completion_status_counts (process_all accumulator_init rs),
             average_time_per_successful_request =
               of_int (successful_took rs) / of_nat (count_list (map status rs) 200)\<rparr>) =
     (count_list (map status rs) 200 \<noteq> 0)"
proof -
  have general: "(get_summary acc = Inl ZeroDivisionError) =
     (counter_get (completion_status_counts acc) 200 = 0)"
    by (simp add: get_summary_def)
  have raised: "(get_summary (process_all accumulator_init rs) = Inl ZeroDivisionError) =
     (count_list (map status rs) 200 = 0)"
    by (simp add: get_summary_def counter_get_process_all)
  have total: "total_took_time (process_all accumulator_init rs) = successful_took rs"
    by (simp add: process_all_total accumulator_init_def)
  have returned: "(get_summary (process_all accumulator_init rs) =
        Inr \<lparr>summary_completion_status_counts =
               completion_status_counts (process_all accumulator_init rs),
             average_time_per_successful_request =
               of_int (successful_took rs) / of_nat (count_list (map status rs) 200)\<rparr>) =
     (count_list (map status rs) 200 \<noteq> 0)"
    using total by (simp add: get_summary_def counter_get_process_all)
  from general raised returned show ?thesis by blast
qed

theorem get_summary_raises_iff_no_success_witness:
  "get_summary (process_all accumulator_init
       [\<lparr>status = 404, json = Map.empty\<rparr>, \<lparr>status = 201, json = [''took'' \<mapsto> 5]\<rparr>]) =
     Inl ZeroDivisionError"
  using get_summary_raises_iff_no_success
    [of accumulator_init
        "[\<lparr>status = 404, json = Map.empty\<rparr>, \<lparr>status = 201, json = [''took'' \<mapsto> 5]\<rparr>]"]
  by simp

text \<open>
  C5, as the specification words it, fails: after a single response with status 500 the
  summary is not a value with a marker for "no successes" but the exception.
\<close>

theorem get_summary_no_success_counterexample:
  "get_summary (process_all accumulator_init [\<lparr>status = 500, json = Map.empty\<rparr>]) =
     Inl ZeroDivisionError"
  by (simp add: get_summary_def process_response_information_def accumulator_init_def
      counter_update_single counter_get_def)

text \<open>
  C6. The responses with statuses 200, 200 and 500, the first two with \<^verbatim>\<open>took\<close> 10 and
  20, give the histogram \<open>{200: 2, 500: 1}\<close> and the average 15. For any responses, the
  histogram holds exactly the statuses processed, each with the number of its occurrences,
  the latency total is the sum of \<^verbatim>\<open>took\<close> over the responses with status 200, and the
  average is that total divided by the number of responses with status 200.
\<close>

theorem accumulation_correctness:
  "get_summary (process_all accumulator_init
       [\<lparr>status = 200, json = [''took'' \<mapsto> 10]\<rparr>,
        \<lparr>status = 200, json = [''took'' \<mapsto> 20]\<rparr>,
        \<lparr>status = 500, json = Map.empty\<rparr>]) =
     Inr \<lparr>summary_completion_status_counts = [200 \<mapsto> 2, 500 \<mapsto> 1],
          average_time_per_successful_request = 15\<rparr>
   \<and> completion_status_counts (process_all accumulator_init rs) s =
       (if s \<in> status ` set rs then Some (count_list (map status rs) s) else None)
   \<and> total_took_time (process_all accumulator_init rs) = successful_took rs
   \<and> get_summary (process_all accumulator_init rs) =
       (if count_list (map status rs) 200 = 0 then Inl ZeroDivisionError
        else Inr \<lparr>summary_completion_status_counts =
                    completion_status_counts (process_all accumulator_init rs),
                  average_time_per_successful_request =
                    of_int (successful_took rs) / of_nat (count_list (map status rs) 200)\<rparr>)"
proof -
  have concrete: "get_summary (process_all accumulator_init
       [\<lparr>status = 200, json = [''took'' \<mapsto> 10]\<rparr>,
        \<lparr>status = 200, json = [''took'' \<mapsto> 20]\<rparr>,
        \<lparr>status = 500, json = Map.empty\<rparr>]) =
     Inr \<lparr>summary_completion_status_counts = [200 \<mapsto> 2, 500 \<mapsto> 1],
          average_time_per_successful_request = 15\<rparr>"
    by (simp add: process_response_information_def accumulator_init_def counter_update_single
        counter_get_def get_summary_def numeral_2_eq_2)
  have counts: "completion_status_counts (process_all accumulator_init rs) s =
       (if s \<in> status ` set rs then Some (count_list (map status rs) s) else None)"
    by (simp add: process_all_counts accumulator_init_def counter_get_def)
  have total: "total_took_time (process_all accumulator_init rs) = successful_took rs"
    by (simp add: process_all_total accumulator_init_def)
  have average: "get_summary (process_all accumulator_init rs) =
       (if count_list (map status rs) 200 = 0 then Inl ZeroDivisionError
        else Inr \<lparr>summary_completion_status_counts =
                    completion_status_counts (process_all accumulator_init rs),
                  average_time_per_successful_request =
                    of_int (successful_took rs) / of_nat (count_list (map status rs) 200)\<rparr>)"
    using total by (simp add: get_summary_def counter_get_process_all)
  from concrete counts total average show ?thesis by blast
qed

theorem accumulation_correctness_witness:
  "total_took_time (process_all accumulator_init
       [\<lparr>status = 200, json = [''took'' \<mapsto> 4]\<rparr>, \<lparr>status = 404, json = Map.empty\<rparr>,
        \<lparr>status = 200, json = [''took'' \<mapsto> 8]\<rparr>]) = 12
   \<and> completion_status_counts (process_all accumulator_init
       [\<lparr>status = 200, json = [''took'' \<mapsto> 4]\<rparr>, \<lparr>status = 404, json = Map.empty\<rparr>,
        \<lparr>status = 200, json = [''took'' \<mapsto> 8]\<rparr>]) 200 = Some 2"
  using accumulation_correctness
    [of "[\<lparr>status = 200, json = [''took'' \<mapsto> 4]\<rparr>, \<lparr>status = 404, json = Map.empty\<rparr>,
          \<lparr>status = 200, json = [''took'' \<mapsto> 8]\<rparr>]" 200]
  by simp

text \<open>
  C10. Every call adds one to the histogram entry of the response's status (a status not
  yet in the histogram gets the count 1, a status with the count \<open>n\<close> gets \<open>n + 1\<close>) and
  leaves the other entries alone, whatever the status; the latency total grows, by the
  body's \<^verbatim>\<open>took\<close>, only when the status is exactly 200, and is unchanged for any other
  status, 2xx or not.
\<close>

theorem process_response_information_effect:
  "completion_status_counts (snd (process_response_information acc r)) =
     (completion_status_counts acc)
       (status r \<mapsto> (case completion_status_counts acc (status r) of
                      None \<Rightarrow> 1
                    | Some n \<Rightarrow> n + 1))
   \<and> total_took_time (snd (process_response_information acc r)) =
       (if status r = 200
        then total_took_time acc + (case json r ''took'' of None \<Rightarrow> 0 | Some t \<Rightarrow> t)
        else total_took_time acc)
   \<and> fst (process_response_information acc r) =
       (if status r = 200 \<and> json r ''took'' = None then Some KeyError else None)"
proof -
  have counts: "completion_status_counts (snd (process_response_information acc r)) =
     (completion_status_counts acc)
       (status r \<mapsto> (case completion_status_counts acc (status r) of
                      None \<Rightarrow> 1
                    | Some n \<Rightarrow> n + 1))"
    by (simp add: process_counts counter_get_def split: option.splits)
  show ?thesis
    using counts by (simp add: process_total process_raises)
qed

theorem process_response_information_effect_witness:
  "process_response_information
       \<lparr>total_took_time = 30, completion_status_counts = [200 \<mapsto> 2, 201 \<mapsto> 4]\<rparr>
       \<lparr>status = 200, json = [''took'' \<mapsto> 7]\<rparr> =
     (None, \<lparr>total_took_time = 37, completion_status_counts = [200 \<mapsto> 3, 201 \<mapsto> 4]\<rparr>)
   \<and> process_response_information
       \<lparr>total_took_time = 30, completion_status_counts = [200 \<mapsto> 2, 201 \<mapsto> 4]\<rparr>
       \<lparr>status = 201, json = [''took'' \<mapsto> 7]\<rparr> =
     (None, \<lparr>total_took_time = 30, completion_status_counts = [200 \<mapsto> 2, 201 \<mapsto> 5]\<rparr>)
   \<and> process_response_information
       \<lparr>total_took_time = 30, completion_status_counts = [200 \<mapsto> 2, 201 \<mapsto> 4]\<rparr>
       \<lparr>status = 500, json = Map.empty\<rparr> =
     (None, \<lparr>total_took_time = 30,
             completion_status_counts = [200 \<mapsto> 2, 201 \<mapsto> 4, 500 \<mapsto> 1]\<rparr>)"
proof -
  let ?acc = "\<lparr>total_took_time = 30, completion_status_counts = [200 \<mapsto> 2, 201 \<mapsto> 4]\<rparr>"
  have a: "snd (process_response_information ?acc \<lparr>status = 200, json = [''took'' \<mapsto> 7]\<rparr>) =
      \<lparr>total_took_time = 37, completion_status_counts = [200 \<mapsto> 3, 201 \<mapsto> 4]\<rparr>
    \<and> fst (process_response_information ?acc \<lparr>status = 200, json = [''took'' \<mapsto> 7]\<rparr>) = None"
    using process_response_information_effect
      [of ?acc "\<lparr>status = 200, json = [''took'' \<mapsto> 7]\<rparr>"]
    by (cases "snd (process_response_information ?acc \<lparr>status = 200, json = [''took'' \<mapsto> 7]\<rparr>)")
      (auto simp: fun_upd_twist)
  have b: "snd (process_response_information ?acc \<lparr>status = 201, json = [''took'' \<mapsto> 7]\<rparr>) =
      \<lparr>total_took_time = 30, completion_status_counts = [200 \<mapsto> 2, 201 \<mapsto> 5]\<rparr>
    \<and> fst (process_response_information ?acc \<lparr>status = 201, json = [''took'' \<mapsto> 7]\<rparr>) = None"
    using process_response_information_effect
      [of ?acc "\<lparr>status = 201, json = [''took'' \<mapsto> 7]\<rparr>"]
    by (cases "snd (process_response_information ?acc \<lparr>status = 201, json = [''took'' \<mapsto> 7]\<rparr>)")
      auto
  have c: "snd (process_response_information ?acc \<lparr>status = 500, json = Map.empty\<rparr>) =
      \<lparr>total_took_time = 30, completion_status_counts = [200 \<mapsto> 2, 201 \<mapsto> 4, 500 \<mapsto> 1]\<rparr>
    \<and> fst (process_response_information ?acc \<lparr>status = 500, json = Map.empty\<rparr>) = None"
    using process_response_information_effect
      [of ?acc "\<lparr>status = 500, json = Map.empty\<rparr>"]
    by (cases "snd (process_response_information ?acc \<lparr>status = 500, json = Map.empty\<rparr>)")
      auto
  from a b c show ?thesis by (simp add: prod_eq_iff)
qed

subsection \<open>The timeline\<close>

lemma get_sleep_time_set:
  assumes "log_initial_time lt \<noteq> datetime_min" "real_initial_time lt = Some rit"
    "speed_multiplier lt \<noteq> 0"
  shows "get_sleep_time lt log_time now =
     Inr ((total_seconds (log_time - log_initial_time lt)
            - total_seconds (now - rit) * speed_multiplier lt) / speed_multiplier lt, lt)"
  using assms by (simp add: get_sleep_time_def Let_def)


text \<open>
  C1. With the log origin set (not the sentinel \<^verbatim>\<open>datetime.min\<close>), the start of the
  replay set and a positive speed multiplier \<open>m\<close>, the sleep time returned for an event is
  \<open>((event_timestamp - log_origin) - (now - replay_start) * m) / m\<close>, the tester is left
  as it was, and the value is the same as \<open>(event_timestamp - log_origin) / m\<close>, the real
  offset the event is scheduled at, less the real time elapsed: it is negative exactly when
  more real time has elapsed than that offset.
\<close>

theorem get_sleep_time_formula:
  assumes "log_initial_time lt \<noteq> datetime_min"
    and "real_initial_time lt = Some replay_start"
    and "0 < speed_multiplier lt"
  shows "get_sleep_time lt event_timestamp now =
           Inr ((total_seconds (event_timestamp - log_initial_time lt)
                  - total_seconds (now - replay_start) * speed_multiplier lt)
                / speed_multiplier lt, lt)
       \<and> get_sleep_time lt event_timestamp now =
           Inr (total_seconds (event_timestamp - log_initial_time lt) / speed_multiplier lt
                  - total_seconds (now - replay_start), lt)
       \<and> ((total_seconds (event_timestamp - log_initial_time lt)
                  - total_seconds (now - replay_start) * speed_multiplier lt)
                / speed_multiplier lt < 0) =
          (total_seconds (event_timestamp - log_initial_time lt) / speed_multiplier lt
             < total_seconds (now - replay_start))"
proof -
  let ?m = "speed_multiplier lt"
  let ?L = "total_seconds (event_timestamp - log_initial_time lt)"
  let ?R = "total_seconds (now - replay_start)"
  have m: "?m \<noteq> 0" using assms(3) by simp
  have eq: "(?L - ?R * ?m) / ?m = ?L / ?m - ?R"
    using m by (simp add: diff_divide_distrib)
  have first: "get_sleep_time lt event_timestamp now = Inr ((?L - ?R * ?m) / ?m, lt)"
    using get_sleep_time_set [OF assms(1) assms(2) m] .
  have neg: "((?L - ?R * ?m) / ?m < 0) = (?L / ?m < ?R)"
    unfolding eq by simp
  show ?thesis using first eq neg by simp
qed

theorem get_sleep_time_formula_witness:
  "get_sleep_time
     \<lparr>host = ''h'', port = ''9200'', speed_multiplier = 2, log_initial_time = 1000000,
      real_initial_time = Some 5000000, log_delta_time = 0\<rparr> 11000000 12000000 =
   Inr (- 2, \<lparr>host = ''h'', port = ''9200'', speed_multiplier = 2, log_initial_time = 1000000,
      real_initial_time = Some 5000000, log_delta_time = 0\<rparr>)"
  using get_sleep_time_formula
    [of "\<lparr>host = ''h'', port = ''9200'', speed_multiplier = 2, log_initial_time = 1000000,
      real_initial_time = Some 5000000, log_delta_time = 0\<rparr>" 5000000 11000000 12000000]
  by (simp add: datetime_min_def total_seconds_def)

subsection \<open>The boundary between two passes over the log\<close>

lemma for_requests_set:
  assumes "log_initial_time lt \<noteq> datetime_min" "real_initial_time lt = Some rit"
    "speed_multiplier lt \<noteq> 0"
  shows "snd (for_requests lt prev evs) =
     Inr (lt, if evs = [] then prev else Some (fst (last evs)))"
proof (induction evs arbitrary: prev)
  case Nil
  show ?case by simp
next
  case (Cons ev evs)
  obtain r now where ev: "ev = (r, now)" by (cases ev)
  show ?case
    using Cons.IH [of "Some r"]
    by (auto simp: ev get_sleep_time_set [OF assms] split: prod.splits)
qed

lemma cycle_start_first:
  "cycle_start (load_tester_init h p m) None now1 =
     Inr ((load_tester_init h p m)\<lparr>real_initial_time := Some now1\<rparr>)"
  by (simp add: cycle_start_def load_tester_init_def datetime_sub_timedelta_def
      datetime_min_def datetime_max_def)

lemma first_cycle:
  assumes m: "m \<noteq> 0" and ts0: "timestamp r0 \<noteq> datetime_min"
  shows "snd (requests_cycle (load_tester_init h p m) None now1 ((r0, n0) # evs)) =
     Inr ((load_tester_init h p m)
            \<lparr>real_initial_time := Some now1, log_initial_time := timestamp r0\<rparr>,
          Some (fst (last ((r0, n0) # evs))))"
proof -
  let ?lth = "(load_tester_init h p m)\<lparr>real_initial_time := Some now1\<rparr>"
  let ?lt1 = "(load_tester_init h p m)
            \<lparr>real_initial_time := Some now1, log_initial_time := timestamp r0\<rparr>"
  have g: "get_sleep_time ?lth (timestamp r0) n0 =
      Inr ((total_seconds 0 - total_seconds (n0 - now1) * m) / m, ?lt1)"
    using m by (simp add: get_sleep_time_def load_tester_init_def Let_def)
  have rest: "snd (for_requests ?lt1 (Some r0) evs) =
      Inr (?lt1, if evs = [] then Some r0 else Some (fst (last evs)))"
    by (rule for_requests_set [where rit = now1]) (use m ts0 in \<open>simp_all add: load_tester_init_def\<close>)
  show ?thesis
    using rest by (auto simp: requests_cycle_def cycle_start_first g split: prod.splits)
qed

lemma second_cycle_start:
  assumes lo: "datetime_min \<le> log_initial_time lt - (timestamp rl - log_initial_time lt)"
    and hi: "log_initial_time lt - (timestamp rl - log_initial_time lt) \<le> datetime_max"
    and real: "real_initial_time lt = Some rit" and delta: "log_delta_time lt = 0"
  shows "cycle_start lt (Some rl) now2 =
     Inr (lt\<lparr>log_delta_time := timestamp rl - log_initial_time lt,
             log_initial_time := log_initial_time lt - (timestamp rl - log_initial_time lt)\<rparr>)"
  using assms by (simp add: cycle_start_def datetime_sub_timedelta_def)


lemma requests_two_passes:
  assumes m: "m \<noteq> 0"
    and tsf: "timestamp rf \<noteq> datetime_min"
    and rl: "rl = fst (last ((rf, nf) # evs))"
    and D: "D = timestamp rl - timestamp rf"
    and lo: "datetime_min < timestamp rf - D"
    and hi: "timestamp rf - D \<le> datetime_max"
  shows "map sleep_time (fst (requests (load_tester_init h p m) None
            [(replay_start, (rf, nf) # evs), (nowb, [(ev, now)])])) =
         map sleep_time (fst (requests_cycle (load_tester_init h p m) None replay_start
            ((rf, nf) # evs)))
         @ [(total_seconds (timestamp ev + D - timestamp rf)
              - total_seconds (now - replay_start) * m) / m]"
proof -
  let ?lta = "(load_tester_init h p m)
                \<lparr>real_initial_time := Some replay_start, log_initial_time := timestamp rf\<rparr>"
  let ?ltb = "?lta\<lparr>log_delta_time := D, log_initial_time := timestamp rf - D\<rparr>"
  obtain ys res where first: "requests_cycle (load_tester_init h p m) None replay_start
      ((rf, nf) # evs) = (ys, res)"
    by (cases "requests_cycle (load_tester_init h p m) None replay_start ((rf, nf) # evs)")
  have res: "res = Inr (?lta, Some rl)"
    using first_cycle [OF m tsf, of h p replay_start nf evs] first rl by simp
  have start: "cycle_start ?lta (Some rl) nowb = Inr ?ltb"
    using second_cycle_start [of ?lta rl replay_start nowb] lo hi
    by (simp add: D load_tester_init_def)
  have sleep: "get_sleep_time ?ltb (timestamp ev) now =
      Inr ((total_seconds (timestamp ev - (timestamp rf - D))
             - total_seconds (now - replay_start) * m) / m, ?ltb)"
    using get_sleep_time_set [of ?ltb replay_start "timestamp ev" now] lo m
    by (simp add: load_tester_init_def)
  have e: "timestamp ev - (timestamp rf - D) = timestamp ev + D - timestamp rf" by simp
  have second: "requests_cycle ?lta (Some rl) nowb [(ev, now)] =
      ([\<lparr>url = format_url ?ltb ev, body = json_body ev,
         sleep_time = (total_seconds (timestamp ev + D - timestamp rf)
             - total_seconds (now - replay_start) * m) / m\<rparr>], Inr (?ltb, Some ev))"
    unfolding requests_cycle_def start using sleep unfolding e by simp
  show ?thesis
    by (simp add: first res second)
qed

text \<open>
  The boundary between two passes, away from the sentinel. Let the first pass over a log
  that starts with the event \<open>rf\<close> end with the event \<open>rl\<close>, and let \<open>D\<close> be the
  difference of their timestamps. If the first timestamp is not \<^verbatim>\<open>datetime.min\<close> and
  lies more than \<open>D\<close> after it (and the origin moved back by \<open>D\<close> is a datetime), the
  first pass leaves the origin at the first timestamp, the head of the second pass sets the
  log duration to the last timestamp less that origin and moves the origin back by it, and
  the sleep time computed then for an event \<open>ev\<close> is the one computed before the boundary
  for the timestamp of \<open>ev\<close> plus \<open>D\<close>; it is the sleep time of the dictionary the
  generator yields for \<open>ev\<close> as the first event of the second pass.
\<close>

lemma cycle_continuity:
  assumes m: "0 < m"
    and tsf: "timestamp rf \<noteq> datetime_min"
    and rl: "rl = fst (last ((rf, nf) # evs))"
    and D: "D = timestamp rl - timestamp rf"
    and lo: "datetime_min < timestamp rf - D"
    and hi: "timestamp rf - D \<le> datetime_max"
    and lta: "lta = (load_tester_init h p m)
                \<lparr>real_initial_time := Some replay_start, log_initial_time := timestamp rf\<rparr>"
    and ltb: "ltb = lta\<lparr>log_delta_time := D, log_initial_time := timestamp rf - D\<rparr>"
  shows "snd (requests_cycle (load_tester_init h p m) None replay_start ((rf, nf) # evs)) =
           Inr (lta, Some rl)
       \<and> cycle_start lta (Some rl) nowb = Inr ltb
       \<and> log_delta_time ltb = timestamp rl - log_initial_time lta
       \<and> log_initial_time ltb = log_initial_time lta - log_delta_time ltb
       \<and> map_sum id fst (get_sleep_time ltb (timestamp ev) now) =
           Inr ((total_seconds (timestamp ev + D - timestamp rf) - total_seconds (now - replay_start) * m) / m)
       \<and> map_sum id fst (get_sleep_time ltb (timestamp ev) now) =
           map_sum id fst (get_sleep_time lta (timestamp ev + D) now)
       \<and> map sleep_time (fst (requests (load_tester_init h p m) None
               [(replay_start, (rf, nf) # evs), (nowb, [(ev, now)])])) =
           map sleep_time (fst (requests_cycle (load_tester_init h p m) None replay_start
               ((rf, nf) # evs)))
           @ [(total_seconds (timestamp ev + D - timestamp rf)
                - total_seconds (now - replay_start) * m) / m]"
proof -
  have mz: "m \<noteq> 0" using m by simp
  have ca: "snd (requests_cycle (load_tester_init h p m) None replay_start ((rf, nf) # evs)) =
           Inr (lta, Some rl)"
    unfolding lta rl by (rule first_cycle [OF mz tsf])
  have oa: "log_initial_time lta = timestamp rf" by (simp add: lta)
  have cb: "cycle_start lta (Some rl) nowb = Inr ltb"
    unfolding ltb using second_cycle_start [of lta rl replay_start nowb] lo hi
    by (simp add: oa D) (simp add: lta load_tester_init_def)
  have sb: "get_sleep_time ltb (timestamp ev) now =
      Inr ((total_seconds (timestamp ev - (timestamp rf - D)) - total_seconds (now - replay_start) * m) / m, ltb)"
    using get_sleep_time_set [of ltb replay_start "timestamp ev" now] lo mz
    by (simp add: ltb lta load_tester_init_def)
  have sa: "get_sleep_time lta (timestamp ev + D) now =
      Inr ((total_seconds (timestamp ev + D - timestamp rf) - total_seconds (now - replay_start) * m) / m, lta)"
    using get_sleep_time_set [of lta replay_start "timestamp ev + D" now] tsf mz
    by (simp add: lta load_tester_init_def)
  have e: "timestamp ev - (timestamp rf - D) = timestamp ev + D - timestamp rf" by simp
  have both: "map sleep_time (fst (requests (load_tester_init h p m) None
               [(replay_start, (rf, nf) # evs), (nowb, [(ev, now)])])) =
           map sleep_time (fst (requests_cycle (load_tester_init h p m) None replay_start
               ((rf, nf) # evs)))
           @ [(total_seconds (timestamp ev + D - timestamp rf)
                - total_seconds (now - replay_start) * m) / m]"
    by (rule requests_two_passes [OF mz tsf rl D lo hi])
  have parts: "snd (requests_cycle (load_tester_init h p m) None replay_start ((rf, nf) # evs)) =
           Inr (lta, Some rl)
       \<and> cycle_start lta (Some rl) nowb = Inr ltb
       \<and> log_delta_time ltb = timestamp rl - log_initial_time lta
       \<and> log_initial_time ltb = log_initial_time lta - log_delta_time ltb
       \<and> map_sum id fst (get_sleep_time ltb (timestamp ev) now) =
           Inr ((total_seconds (timestamp ev + D - timestamp rf)
                  - total_seconds (now - replay_start) * m) / m)
       \<and> map_sum id fst (get_sleep_time ltb (timestamp ev) now) =
           map_sum id fst (get_sleep_time lta (timestamp ev + D) now)"
    using ca cb sa sb unfolding e by (simp add: ltb oa D)
  from parts both show ?thesis by blast
qed

lemma cycle_continuity_example:
  "cycle_start
     \<lparr>host = ''h'', port = ''9200'', speed_multiplier = 2, log_initial_time = 10000000,
      real_initial_time = Some 100000000, log_delta_time = 0\<rparr>
     (Some \<lparr>timestamp = 16000000, http_method = ''POST'', url_path = ''i/_search'', json_body = ''{}''\<rparr>)
     106000000 =
   Inr \<lparr>host = ''h'', port = ''9200'', speed_multiplier = 2, log_initial_time = 4000000,
      real_initial_time = Some 100000000, log_delta_time = 6000000\<rparr>
   \<and> map_sum id fst (get_sleep_time
     \<lparr>host = ''h'', port = ''9200'', speed_multiplier = 2, log_initial_time = 4000000,
      real_initial_time = Some 100000000, log_delta_time = 6000000\<rparr> 10000000 103000000) = Inr 0"
  using cycle_continuity
    [where m = 2 and h = "''h''" and p = "''9200''" and replay_start = 100000000 and nowb = 106000000
       and rf = "\<lparr>timestamp = 10000000, http_method = ''POST'', url_path = ''i/_search'', json_body = ''{}''\<rparr>"
       and nf = 100000000
       and evs = "[(\<lparr>timestamp = 16000000, http_method = ''POST'', url_path = ''i/_search'', json_body = ''{}''\<rparr>, 103000000)]"
       and rl = "\<lparr>timestamp = 16000000, http_method = ''POST'', url_path = ''i/_search'', json_body = ''{}''\<rparr>"
       and D = 6000000
       and lta = "\<lparr>host = ''h'', port = ''9200'', speed_multiplier = 2, log_initial_time = 10000000,
                   real_initial_time = Some 100000000, log_delta_time = 0\<rparr>"
       and ltb = "\<lparr>host = ''h'', port = ''9200'', speed_multiplier = 2, log_initial_time = 4000000,
                   real_initial_time = Some 100000000, log_delta_time = 6000000\<rparr>"
       and ev = "\<lparr>timestamp = 10000000, http_method = ''POST'', url_path = ''i/_search'', json_body = ''{}''\<rparr>"
       and now = 103000000]
  by (simp add: datetime_min_def datetime_max_def load_tester_init_def total_seconds_def)


text \<open>
  C2. The code moves the origin back by the log's duration at the boundary, as the specification
  describes, but it loses the move when the origin moved back is \<^verbatim>\<open>datetime.min\<close>, the
  value that stands for "not evaluated yet". For a log of two events, 2 and 4 seconds after
  \<^verbatim>\<open>datetime.min\<close>, replayed at speed 1, the head of the second pass moves the origin to
  \<^verbatim>\<open>datetime.min\<close>, \<^verbatim>\<open>_get_sleep_time\<close> takes it for not set and puts the event's
  timestamp in its place: 2 seconds after the start of the replay, the first event of the
  second pass gets the sleep time -2, where the log continued past its end gives 0. For a
  log of two events 12 and 18 seconds after \<^verbatim>\<open>datetime.min\<close> the same happens at the
  third pass: the sleep times yielded are 0, 0, 0, 0 and then -12 instead of 0.
\<close>

theorem cycle_boundary_sentinel_collision:
  "snd (requests_cycle (load_tester_init ''h'' ''9200'' 1) None 100000000
     [(\<lparr>timestamp = 2000000, http_method = ''POST'', url_path = ''i/_search'', json_body = ''{}''\<rparr>, 100000000),
      (\<lparr>timestamp = 4000000, http_method = ''POST'', url_path = ''i/_search'', json_body = ''{}''\<rparr>, 102000000)]) =
    Inr (\<lparr>host = ''h'', port = ''9200'', speed_multiplier = 1, log_initial_time = 2000000,
          real_initial_time = Some 100000000, log_delta_time = 0\<rparr>,
         Some \<lparr>timestamp = 4000000, http_method = ''POST'', url_path = ''i/_search'', json_body = ''{}''\<rparr>)
   \<and> cycle_start
       \<lparr>host = ''h'', port = ''9200'', speed_multiplier = 1, log_initial_time = 2000000,
          real_initial_time = Some 100000000, log_delta_time = 0\<rparr>
       (Some \<lparr>timestamp = 4000000, http_method = ''POST'', url_path = ''i/_search'', json_body = ''{}''\<rparr>)
       102000000 =
     Inr \<lparr>host = ''h'', port = ''9200'', speed_multiplier = 1, log_initial_time = datetime_min,
          real_initial_time = Some 100000000, log_delta_time = 2000000\<rparr>
   \<and> map_sum id fst (get_sleep_time
       \<lparr>host = ''h'', port = ''9200'', speed_multiplier = 1, log_initial_time = datetime_min,
          real_initial_time = Some 100000000, log_delta_time = 2000000\<rparr> 2000000 102000000) = Inr (- 2)
   \<and> map_sum id fst (get_sleep_time
       \<lparr>host = ''h'', port = ''9200'', speed_multiplier = 1, log_initial_time = 2000000,
          real_initial_time = Some 100000000, log_delta_time = 0\<rparr> (2000000 + 2000000) 102000000) = Inr 0
   \<and> map sleep_time (fst (requests (load_tester_init ''h'' ''9200'' 1) None
       [(100000000,
         [(\<lparr>timestamp = 12000000, http_method = ''POST'', url_path = ''i/_search'', json_body = ''{}''\<rparr>, 100000000),
          (\<lparr>timestamp = 18000000, http_method = ''POST'', url_path = ''i/_search'', json_body = ''{}''\<rparr>, 106000000)]),
        (106000000,
         [(\<lparr>timestamp = 12000000, http_method = ''POST'', url_path = ''i/_search'', json_body = ''{}''\<rparr>, 106000000),
          (\<lparr>timestamp = 18000000, http_method = ''POST'', url_path = ''i/_search'', json_body = ''{}''\<rparr>, 112000000)]),
        (112000000,
         [(\<lparr>timestamp = 12000000, http_method = ''POST'', url_path = ''i/_search'', json_body = ''{}''\<rparr>, 112000000)])])) =
     [0, 0, 0, 0, - 12]"
  by (simp add: requests_cycle_def cycle_start_def load_tester_init_def get_sleep_time_def
      datetime_sub_timedelta_def datetime_min_def datetime_max_def total_seconds_def)

subsection \<open>The pacing loop\<close>

lemma run_loop_within:
  assumes "within_budget B s item"
  shows "run_loop B s (item # items) n effs =
     run_loop B s items (n + 1) (effs @ iteration_effects B s item)"
proof -
  obtain request now where item: "item = (request, now)" by (cases item)
  have "\<not> (B \<le> now - s)" using assms by (simp add: within_budget_def item)
  then show ?thesis by (simp add: item Let_def iteration_effects_def)
qed

lemma run_loop_exhausted:
  assumes "\<not> within_budget B s item"
  shows "run_loop B s (item # items) n effs =
     Break (snd item - s) (fst item) n (effs @ [Pull (fst item), ReadClock (snd item)])"
proof -
  obtain request now where item: "item = (request, now)" by (cases item)
  have "B \<le> now - s" using assms by (simp add: within_budget_def item)
  then show ?thesis by (simp add: item Let_def)
qed

lemma run_loop_all_within:
  assumes "\<forall>item\<in>set pre. within_budget B s item"
  shows "run_loop B s (pre @ items) n effs =
     run_loop B s items (n + length pre) (effs @ concat (map (iteration_effects B s) pre))"
  using assms
proof (induction pre arbitrary: n effs)
  case Nil
  show ?case by simp
next
  case (Cons item pre)
  have w: "within_budget B s item" using Cons.prems by simp
  have "run_loop B s ((item # pre) @ items) n effs =
      run_loop B s (pre @ items) (n + 1) (effs @ iteration_effects B s item)"
    using run_loop_within [OF w] by simp
  also have "\<dots> = run_loop B s items (n + 1 + length pre)
      ((effs @ iteration_effects B s item) @ concat (map (iteration_effects B s) pre))"
    using Cons.IH [of "n + 1" "effs @ iteration_effects B s item"] Cons.prems by simp
  finally show ?case by simp
qed

lemma takeWhile_within:
  "\<forall>item\<in>set (takeWhile (within_budget B s) items). within_budget B s item"
  by (auto dest: set_takeWhileD)

lemma dropWhile_head_exhausted:
  assumes "dropWhile (within_budget B s) items = item # rest"
  shows "\<not> within_budget B s item"
  using hd_dropWhile [of "within_budget B s" items] assms by simp

lemma run_loop_running:
  assumes "dropWhile (within_budget B s) items = []"
  shows "run_loop B s items n effs =
     Running (n + length items) (effs @ concat (map (iteration_effects B s) items))"
proof -
  have all: "\<forall>item\<in>set items. within_budget B s item"
    using assms by (simp add: dropWhile_eq_Nil_conv)
  show ?thesis using run_loop_all_within [OF all, of "[]" n effs] by simp
qed

lemma run_loop_break:
  assumes "dropWhile (within_budget B s) items = item # rest"
  shows "run_loop B s items n effs =
     Break (snd item - s) (fst item) (n + length (takeWhile (within_budget B s) items))
       (effs @ concat (map (iteration_effects B s) (takeWhile (within_budget B s) items))
             @ [Pull (fst item), ReadClock (snd item)])"
proof -
  let ?pre = "takeWhile (within_budget B s) items"
  have split: "items = ?pre @ item # rest"
    by (simp only: assms [symmetric] takeWhile_dropWhile_id)
  have "run_loop B s items n effs = run_loop B s (?pre @ item # rest) n effs"
    by (rule arg_cong [where f = "\<lambda>xs. run_loop B s xs n effs", OF split])
  also have "\<dots> =
      run_loop B s (item # rest) (n + length ?pre)
        (effs @ concat (map (iteration_effects B s) ?pre))"
    by (rule run_loop_all_within [OF takeWhile_within])
  also have "\<dots> = Break (snd item - s) (fst item) (n + length ?pre)
      ((effs @ concat (map (iteration_effects B s) ?pre)) @ [Pull (fst item), ReadClock (snd item)])"
    by (rule run_loop_exhausted [OF dropWhile_head_exhausted [OF assms]])
  finally show ?thesis by simp
qed




lemma run_loop_effects:
  "effects_of (run_loop B s items n effs) =
     effs @ concat (map (iteration_effects B s) (takeWhile (within_budget B s) items))
          @ breaking_effects (dropWhile (within_budget B s) items)"
proof (cases "dropWhile (within_budget B s) items")
  case Nil
  have tw: "takeWhile (within_budget B s) items = items"
    using Nil takeWhile_dropWhile_id [of "within_budget B s" items] by simp
  show ?thesis
    unfolding run_loop_running [OF Nil] tw Nil by (simp add: breaking_effects_def)
next
  case (Cons item rest)
  show ?thesis
    unfolding run_loop_break [OF Cons] Cons by (simp add: breaking_effects_def)
qed

lemma dispatches_append: "dispatches (xs @ ys) = dispatches xs @ dispatches ys"
  by (induction xs rule: dispatches.induct) simp_all

lemma dispatches_iterations:
  "dispatches (concat (map (iteration_effects B s) items)) =
     map (\<lambda>item. (url (fst item), body (fst item))) items"
  by (induction items) (simp_all add: iteration_effects_def)

lemma dispatches_breaking: "dispatches (breaking_effects items) = []"
  by (simp add: breaking_effects_def split: list.splits)

lemma checked_iterations:
  assumes "\<forall>item\<in>set items. within_budget B s item"
  shows "checked_before_dispatch B s (concat (map (iteration_effects B s) items) @ effs) =
     checked_before_dispatch B s effs"
  using assms by (induction items) (simp_all add: iteration_effects_def within_budget_def)

lemma checked_breaking:
  "checked_before_dispatch B s (breaking_effects (dropWhile (within_budget B s) items))"
proof (cases "dropWhile (within_budget B s) items")
  case Nil
  show ?thesis unfolding Nil by (simp add: breaking_effects_def)
next
  case (Cons item rest)
  have "\<not> within_budget B s item" by (rule dropWhile_head_exhausted [OF Cons])
  then show ?thesis unfolding Cons by (simp add: breaking_effects_def within_budget_def)
qed

lemma run_loop_checked:
  "checked_before_dispatch B s (effects_of (run_loop B s items 0 []))"
  unfolding run_loop_effects
  by (simp add: checked_iterations [OF takeWhile_within] checked_breaking)

lemma run_loop_dispatches:
  "dispatches (effects_of (run_loop B s items 0 [])) =
     map (\<lambda>item. (url (fst item), body (fst item))) (takeWhile (within_budget B s) items)"
  by (simp add: run_loop_effects dispatches_append dispatches_iterations dispatches_breaking)

lemma exhausted_dropWhile:
  assumes "item \<in> set items" "\<not> within_budget B s item"
  shows "\<exists>it rest. dropWhile (within_budget B s) items = it # rest \<and> \<not> within_budget B s it"
proof -
  have "dropWhile (within_budget B s) items \<noteq> []"
    using assms by (auto simp: dropWhile_eq_Nil_conv)
  then obtain it rest where d: "dropWhile (within_budget B s) items = it # rest"
    by (cases "dropWhile (within_budget B s) items") auto
  then show ?thesis using dropWhile_head_exhausted [OF d] by blast
qed

lemma run_loop_stops_pulling:
  assumes "item \<in> set items" "\<not> within_budget B s item"
  shows "run_loop B s (items @ later) n effs = run_loop B s items n effs"
proof -
  obtain it rest where d: "dropWhile (within_budget B s) items = it # rest"
    using exhausted_dropWhile [OF assms] by blast
  have d2: "dropWhile (within_budget B s) (items @ later) = it # (rest @ later)"
    using dropWhile_append1 [where P = "within_budget B s" and ys = later, OF assms] d by simp
  have t2: "takeWhile (within_budget B s) (items @ later) = takeWhile (within_budget B s) items"
    using takeWhile_append1 [where P = "within_budget B s" and ys = later, OF assms] by simp
  show ?thesis unfolding run_loop_break [OF d] run_loop_break [OF d2] t2 by simp
qed

lemma run_loop_Break_exhausted:
  assumes "run_loop B s items n effs0 = Break delta request k effs"
  shows "B \<le> delta"
proof (cases "dropWhile (within_budget B s) items")
  case Nil
  show ?thesis using assms unfolding run_loop_running [OF Nil] by simp
next
  case (Cons item rest)
  have "\<not> within_budget B s item" by (rule dropWhile_head_exhausted [OF Cons])
  then have "B \<le> snd item - s" by (simp add: within_budget_def)
  then show ?thesis using assms unfolding run_loop_break [OF Cons] by simp
qed


lemma dispatch_elapsed_iterations:
  assumes "\<forall>item\<in>set items. within_budget B s item"
  shows "dispatch_elapsed s (concat (map (iteration_effects B s) items) @ effs) =
     map (\<lambda>item. snd item - s
            + max (min (sleep_time (fst item)) (B - (snd item - s))) 0) items
     @ dispatch_elapsed s effs"
  using assms by (induction items) (simp_all add: iteration_effects_def)

lemma dispatch_elapsed_breaking: "dispatch_elapsed s (breaking_effects items) = []"
  by (simp add: breaking_effects_def split: list.splits)

lemma run_loop_dispatch_elapsed:
  "dispatch_elapsed s (effects_of (run_loop B s items 0 [])) =
     map (\<lambda>item. snd item - s
            + max (min (sleep_time (fst item)) (B - (snd item - s))) 0)
       (takeWhile (within_budget B s) items)"
  unfolding run_loop_effects
  using dispatch_elapsed_iterations [OF takeWhile_within,
      where effs = "breaking_effects (dropWhile (within_budget B s) items)"]
  by (simp add: dispatch_elapsed_breaking)

lemma run_loop_dispatch_elapsed_bound:
  assumes "e \<in> set (dispatch_elapsed s (effects_of (run_loop B s items 0 [])))"
  shows "e \<le> B"
proof -
  obtain item where item: "item \<in> set (takeWhile (within_budget B s) items)"
    and e: "e = snd item - s + max (min (sleep_time (fst item)) (B - (snd item - s))) 0"
    using assms unfolding run_loop_dispatch_elapsed by auto
  have "within_budget B s item" using item takeWhile_within by blast
  then have "snd item - s < B" by (simp add: within_budget_def)
  then show ?thesis unfolding e by (simp add: max_def min_def)
qed

text \<open>
  C3, as the code has it. Take any items of the endless generator and any readings of the
  clock, and a budget of \<open>B\<close> seconds. The budget is checked once in an iteration, before
  the sleep. Every fetch the loop schedules comes after a reading of the clock, in the same
  iteration, that shows less than \<open>B\<close> seconds elapsed, and after a sleep asked to last no
  longer than the rest of the budget, with no second check: it is scheduled at the elapsed
  time read plus the sleep at the earliest, which is at most \<open>B\<close> and can be \<open>B\<close>. The
  fetches scheduled are exactly those of the items pulled before the first reading that
  shows \<open>B\<close> seconds or more. At such a reading the loop breaks, with an elapsed time of
  at least \<open>B\<close>, having sent only the requests before it, and pulls nothing more: whatever
  the generator would yield later changes nothing.
\<close>

theorem budget_enforcement:
  "checked_before_dispatch B s (effects_of (run_loop B s items 0 []))
   \<and> dispatches (effects_of (run_loop B s items 0 [])) =
       map (\<lambda>item. (url (fst item), body (fst item))) (takeWhile (within_budget B s) items)
   \<and> dispatch_elapsed s (effects_of (run_loop B s items 0 [])) =
       map (\<lambda>item. snd item - s + max (min (sleep_time (fst item)) (B - (snd item - s))) 0)
         (takeWhile (within_budget B s) items)
   \<and> (\<forall>e\<in>set (dispatch_elapsed s (effects_of (run_loop B s items 0 []))). e \<le> B)
   \<and> (\<forall>item\<in>set items. \<not> within_budget B s item \<longrightarrow>
        (\<exists>delta request effs.
           run_loop B s items 0 [] =
             Break delta request (length (takeWhile (within_budget B s) items)) effs
           \<and> B \<le> delta)
        \<and> run_loop B s (items @ later) 0 [] = run_loop B s items 0 [])"
proof -
  have brk: "\<exists>delta request effs.
           run_loop B s items 0 [] =
             Break delta request (length (takeWhile (within_budget B s) items)) effs
           \<and> B \<le> delta"
    if mem: "item \<in> set items" and exh: "\<not> within_budget B s item" for item
  proof -
    obtain it rest where d: "dropWhile (within_budget B s) items = it # rest"
      and ex: "\<not> within_budget B s it"
      using exhausted_dropWhile [OF mem exh] by blast
    have "B \<le> snd it - s" using ex by (simp add: within_budget_def)
    then show ?thesis unfolding run_loop_break [OF d] by simp
  qed
  have bound: "\<forall>e\<in>set (dispatch_elapsed s (effects_of (run_loop B s items 0 []))). e \<le> B"
    using run_loop_dispatch_elapsed_bound [of _ s B items] by blast
  show ?thesis
    using run_loop_checked [of B s items] run_loop_dispatches [of B s items]
      run_loop_dispatch_elapsed [of s B items] bound brk
      run_loop_stops_pulling [of _ items B s later 0 "[]"]
    by blast
qed

theorem budget_enforcement_witness:
  "run_loop 60 1000
     [(\<lparr>url = ''a'', body = ''1'', sleep_time = 2\<rparr>, 1010),
      (\<lparr>url = ''b'', body = ''2'', sleep_time = 100\<rparr>, 1030),
      (\<lparr>url = ''c'', body = ''3'', sleep_time = 1\<rparr>, 1060),
      (\<lparr>url = ''d'', body = ''4'', sleep_time = 1\<rparr>, 1061)] 0 [] =
   run_loop 60 1000
     [(\<lparr>url = ''a'', body = ''1'', sleep_time = 2\<rparr>, 1010),
      (\<lparr>url = ''b'', body = ''2'', sleep_time = 100\<rparr>, 1030),
      (\<lparr>url = ''c'', body = ''3'', sleep_time = 1\<rparr>, 1060)] 0 []
   \<and> dispatches (effects_of (run_loop 60 1000
     [(\<lparr>url = ''a'', body = ''1'', sleep_time = 2\<rparr>, 1010),
      (\<lparr>url = ''b'', body = ''2'', sleep_time = 100\<rparr>, 1030),
      (\<lparr>url = ''c'', body = ''3'', sleep_time = 1\<rparr>, 1060)] 0 [])) = [(''a'', ''1''), (''b'', ''2'')]
   \<and> dispatch_elapsed 1000 (effects_of (run_loop 60 1000
     [(\<lparr>url = ''a'', body = ''1'', sleep_time = 2\<rparr>, 1010),
      (\<lparr>url = ''b'', body = ''2'', sleep_time = 100\<rparr>, 1030),
      (\<lparr>url = ''c'', body = ''3'', sleep_time = 1\<rparr>, 1060)] 0 [])) = [12, 60]"
  using budget_enforcement [of 60 1000
     "[(\<lparr>url = ''a'', body = ''1'', sleep_time = 2\<rparr>, 1010),
      (\<lparr>url = ''b'', body = ''2'', sleep_time = 100\<rparr>, 1030),
      (\<lparr>url = ''c'', body = ''3'', sleep_time = 1\<rparr>, 1060)]"
     "[(\<lparr>url = ''d'', body = ''4'', sleep_time = 1\<rparr>, 1061)]"]
  by (simp add: within_budget_def)

text \<open>
  C3, as the specification words it, fails: a request is dispatched with the budget
  exhausted. With a budget of 30 seconds and an event due in 45 seconds, the check reads
  0 seconds elapsed, the loop sleeps the 30 seconds left and then schedules the fetch, at
  30 seconds elapsed or later, where the check that follows (at 30 seconds) breaks the
  loop.
\<close>

theorem budget_enforcement_counterexample:
  "run_loop 30 1000
     [(\<lparr>url = ''a'', body = ''1'', sleep_time = 45\<rparr>, 1000),
      (\<lparr>url = ''b'', body = ''2'', sleep_time = 1\<rparr>, 1030)] 0 [] =
   Break 30 \<lparr>url = ''b'', body = ''2'', sleep_time = 1\<rparr> 1
     [Pull \<lparr>url = ''a'', body = ''1'', sleep_time = 45\<rparr>, ReadClock 1000, Sleep 30,
      Dispatch ''a'' ''1'', Pull \<lparr>url = ''b'', body = ''2'', sleep_time = 1\<rparr>, ReadClock 1030]
   \<and> dispatch_elapsed 1000
     [Pull \<lparr>url = ''a'', body = ''1'', sleep_time = 45\<rparr>, ReadClock 1000, Sleep 30,
      Dispatch ''a'' ''1'', Pull \<lparr>url = ''b'', body = ''2'', sleep_time = 1\<rparr>, ReadClock 1030] =
     [30]
   \<and> \<not> within_budget 30 1000 (\<lparr>url = ''a'', body = ''1'', sleep_time = 45\<rparr>, 1000 + 30)"
  by (simp add: Let_def within_budget_def)

text \<open>
  C4, as the code has it. An iteration pulls the next dictionary (its sleep time was
  computed during the pull), reads the clock and compares the elapsed time with the budget
  before sleeping. If the budget is used up the loop breaks without sleeping and without
  scheduling the fetch; otherwise it sleeps for the smaller of the sleep time and the rest
  of the budget, passed to \<^verbatim>\<open>asyncio.sleep\<close> as it is, and then schedules the fetch with
  no further check.
\<close>

theorem running_loop_order:
  "effects_of (run_loop B s items 0 []) =
     concat (map (iteration_effects B s) (takeWhile (within_budget B s) items))
       @ breaking_effects (dropWhile (within_budget B s) items)
   \<and> run_loop B s items 0 [] =
     (case dropWhile (within_budget B s) items of
        [] \<Rightarrow> Running (length items) (effects_of (run_loop B s items 0 []))
      | item # rest \<Rightarrow>
          Break (snd item - s) (fst item) (length (takeWhile (within_budget B s) items))
            (effects_of (run_loop B s items 0 [])))"
proof (cases "dropWhile (within_budget B s) items")
  case Nil
  show ?thesis
    using run_loop_effects [of B s items 0 "[]"] run_loop_running [OF Nil, of 0 "[]"]
    by (simp add: Nil)
next
  case (Cons item rest)
  show ?thesis
    using run_loop_effects [of B s items 0 "[]"] run_loop_break [OF Cons, of 0 "[]"]
    by (simp add: Cons)
qed

theorem running_loop_order_witness:
  "run_loop 60 0
     [(\<lparr>url = ''a'', body = ''1'', sleep_time = - 5\<rparr>, 10),
      (\<lparr>url = ''b'', body = ''2'', sleep_time = 3\<rparr>, 61)] 0 [] =
   Break 61 \<lparr>url = ''b'', body = ''2'', sleep_time = 3\<rparr> 1
     [Pull \<lparr>url = ''a'', body = ''1'', sleep_time = - 5\<rparr>, ReadClock 10, Sleep (- 5),
      Dispatch ''a'' ''1'', Pull \<lparr>url = ''b'', body = ''2'', sleep_time = 3\<rparr>, ReadClock 61]"
  using running_loop_order [of 60 0
     "[(\<lparr>url = ''a'', body = ''1'', sleep_time = - 5\<rparr>, 10),
      (\<lparr>url = ''b'', body = ''2'', sleep_time = 3\<rparr>, 61)]"]
  by (simp add: within_budget_def iteration_effects_def breaking_effects_def)


text \<open>
  C4, as the specification words it (sleep for the duration clamped at zero, then check,
  then dispatch), fails. With a budget of 60 seconds and an event due in 100 seconds, the
  code checks first, sleeps 60 seconds and schedules the fetch, and in the iteration that
  breaks it does not sleep; the loop of the specification sleeps 100 and 5 seconds, before
  the checks.
\<close>

theorem running_loop_order_counterexample:
  "run_loop 60 0
     [(\<lparr>url = ''a'', body = ''1'', sleep_time = 100\<rparr>, 0),
      (\<lparr>url = ''b'', body = ''2'', sleep_time = 5\<rparr>, 60)] 0 [] =
   Break 60 \<lparr>url = ''b'', body = ''2'', sleep_time = 5\<rparr> 1
     [Pull \<lparr>url = ''a'', body = ''1'', sleep_time = 100\<rparr>, ReadClock 0, Sleep 60,
      Dispatch ''a'' ''1'', Pull \<lparr>url = ''b'', body = ''2'', sleep_time = 5\<rparr>, ReadClock 60]
   \<and> spec_running_loop 60 0
     [(\<lparr>url = ''a'', body = ''1'', sleep_time = 100\<rparr>, 0),
      (\<lparr>url = ''b'', body = ''2'', sleep_time = 5\<rparr>, 60)] 0 [] =
   Break 60 \<lparr>url = ''b'', body = ''2'', sleep_time = 5\<rparr> 1
     [Pull \<lparr>url = ''a'', body = ''1'', sleep_time = 100\<rparr>, Sleep 100, ReadClock 0,
      Dispatch ''a'' ''1'', Pull \<lparr>url = ''b'', body = ''2'', sleep_time = 5\<rparr>, Sleep 5,
      ReadClock 60]
   \<and> run_loop 60 0
     [(\<lparr>url = ''a'', body = ''1'', sleep_time = 100\<rparr>, 0),
      (\<lparr>url = ''b'', body = ''2'', sleep_time = 5\<rparr>, 60)] 0 [] \<noteq>
     spec_running_loop 60 0
     [(\<lparr>url = ''a'', body = ''1'', sleep_time = 100\<rparr>, 0),
      (\<lparr>url = ''b'', body = ''2'', sleep_time = 5\<rparr>, 60)] 0 []"
  by (simp add: Let_def)

subsection \<open>Draining\<close>

lemma drain_ok_iff:
  "(drain ts = Inr ()) =
     (\<forall>t\<in>set ts. task_await t = None \<or> task_await t = Some CancelledError)"
  by (induction ts) (auto split: option.splits)

lemma drain_append_ok:
  assumes "drain pre = Inr ()"
  shows "drain (pre @ ts) = drain ts"
  using assms by (induction pre) (auto split: option.splits if_splits)

lemma drain_raises:
  assumes "drain pre = Inr ()" "task_await t = Some e" "e \<noteq> CancelledError"
  shows "drain (pre @ t # post) = Inl e"
  using assms by (simp add: drain_append_ok)

lemma pending_tasks_done:
  assumes "task_done t"
  shows "pending_tasks (pre @ t # post) = pending_tasks (pre @ post)"
  using assms by (simp add: pending_tasks_def)

lemma run_Break:
  assumes "run_loop (run_time_mins * 60) start_time items 0 [] = Break delta request k effs"
  shows "run run_time_mins start_time items all_tasks =
     Some (case drain (pending_tasks all_tasks) of
             Inl e \<Rightarrow> Inl e
           | Inr u \<Rightarrow> final_stats delta k (length (pending_tasks all_tasks)) request)"
  using assms by (simp add: run_def Let_def)


text \<open>
  C8, as the code has it. The loop over the pending tasks ends normally exactly when every
  await either returns or raises \<^verbatim>\<open>CancelledError\<close>: a cancellation is passed over.
  The first await that raises anything else ends the loop with that exception, which is
  then the outcome of \<^verbatim>\<open>run\<close>. A task already done when the tasks are listed is not
  among the pending ones: it is neither cancelled nor awaited. A unit that completes by
  itself after the listing and before its own cancellation is passed over when it completed
  with a result; when it completed with an exception, the await raises that exception and
  \<^verbatim>\<open>run\<close> ends with it.
\<close>

theorem drain_semantics:
  "(drain ts = Inr ()) =
     (\<forall>t\<in>set ts. task_await t = None \<or> task_await t = Some CancelledError)
   \<and> (drain pre = Inr () \<longrightarrow> task_await t = Some CancelledError \<longrightarrow>
        drain (pre @ t # post) = drain post)
   \<and> (drain pre = Inr () \<longrightarrow> task_await t = None \<longrightarrow>
        drain (pre @ t # post) = drain post)
   \<and> (drain pre = Inr () \<longrightarrow> task_await t = Some e \<longrightarrow> e \<noteq> CancelledError \<longrightarrow>
        drain (pre @ t # post) = Inl e)
   \<and> (task_done t \<longrightarrow> pending_tasks (pre @ t # post) = pending_tasks (pre @ post))
   \<and> (run_loop (run_time_mins * 60) start_time items 0 [] = Break delta request k effs \<longrightarrow>
        drain (pending_tasks all_tasks) = Inl e \<longrightarrow>
        run run_time_mins start_time items all_tasks = Some (Inl e))
   \<and> (drain pre = Inr () \<longrightarrow>
        drain (pre @ completed_before_cancel (FutResult r) # post) = drain post)
   \<and> (drain pre = Inr () \<longrightarrow> e \<noteq> CancelledError \<longrightarrow>
        drain (pre @ completed_before_cancel (FutException e) # post) = Inl e)"
proof -
  have a: "(drain ts = Inr ()) =
     (\<forall>t\<in>set ts. task_await t = None \<or> task_await t = Some CancelledError)"
    by (rule drain_ok_iff)
  have b: "drain (pre @ t # post) = drain post"
    if "drain pre = Inr ()" "task_await t = Some CancelledError"
    using that by (simp add: drain_append_ok)
  have c: "drain (pre @ t # post) = drain post"
    if "drain pre = Inr ()" "task_await t = None"
    using that by (simp add: drain_append_ok)
  have d: "drain (pre @ t # post) = Inl e"
    if "drain pre = Inr ()" "task_await t = Some e" "e \<noteq> CancelledError"
    using that by (rule drain_raises)
  have f: "pending_tasks (pre @ t # post) = pending_tasks (pre @ post)" if "task_done t"
    using that by (rule pending_tasks_done)
  have g: "run run_time_mins start_time items all_tasks = Some (Inl e)"
    if "run_loop (run_time_mins * 60) start_time items 0 [] = Break delta request k effs"
      "drain (pending_tasks all_tasks) = Inl e"
    using run_Break [OF that(1), of all_tasks] that(2) by simp
  have h: "drain (pre @ completed_before_cancel (FutResult r) # post) = drain post"
    if "drain pre = Inr ()"
    using that by (simp add: drain_append_ok completed_before_cancel_def await_done_def)
  have k: "drain (pre @ completed_before_cancel (FutException e) # post) = Inl e"
    if "drain pre = Inr ()" "e \<noteq> CancelledError"
    using that by (simp add: drain_append_ok completed_before_cancel_def await_done_def)
  from a b c d f g h k show ?thesis by blast
qed

theorem drain_semantics_witness:
  "drain [\<lparr>task_done = False, task_is_current = False, task_await = Some CancelledError\<rparr>,
          \<lparr>task_done = False, task_is_current = False, task_await = None\<rparr>] = Inr ()
   \<and> drain [\<lparr>task_done = False, task_is_current = False, task_await = Some CancelledError\<rparr>,
            \<lparr>task_done = False, task_is_current = False, task_await = Some (ClientError ''reset'')\<rparr>,
            \<lparr>task_done = False, task_is_current = False, task_await = Some CancelledError\<rparr>] =
       Inl (ClientError ''reset'')
   \<and> pending_tasks
         [\<lparr>task_done = False, task_is_current = False, task_await = Some CancelledError\<rparr>,
          \<lparr>task_done = True, task_is_current = False, task_await = None\<rparr>,
          \<lparr>task_done = False, task_is_current = True, task_await = None\<rparr>] =
       [\<lparr>task_done = False, task_is_current = False, task_await = Some CancelledError\<rparr>]
   \<and> run 1 0 [(\<lparr>url = ''a'', body = ''1'', sleep_time = 0\<rparr>, 60)]
         [\<lparr>task_done = False, task_is_current = False, task_await = Some (ClientError ''reset'')\<rparr>] =
       Some (Inl (ClientError ''reset''))
   \<and> drain [\<lparr>task_done = False, task_is_current = False, task_await = Some CancelledError\<rparr>,
            completed_before_cancel (FutResult \<lparr>status = 200, json = [''took'' \<mapsto> 3]\<rparr>),
            \<lparr>task_done = False, task_is_current = False, task_await = Some CancelledError\<rparr>] =
       Inr ()
   \<and> drain [\<lparr>task_done = False, task_is_current = False, task_await = Some CancelledError\<rparr>,
            completed_before_cancel (FutException (ClientError ''reset'')),
            \<lparr>task_done = False, task_is_current = False, task_await = Some CancelledError\<rparr>] =
       Inl (ClientError ''reset'')"
  using drain_semantics
    [where ts = "[\<lparr>task_done = False, task_is_current = False, task_await = Some CancelledError\<rparr>,
                  \<lparr>task_done = False, task_is_current = False, task_await = None\<rparr>]"
       and pre = "[\<lparr>task_done = False, task_is_current = False, task_await = Some CancelledError\<rparr>]"
       and t = "\<lparr>task_done = False, task_is_current = False, task_await = Some (ClientError ''reset'')\<rparr>"
       and post = "[\<lparr>task_done = False, task_is_current = False, task_await = Some CancelledError\<rparr>]"
       and e = "ClientError ''reset''"
       and r = "\<lparr>status = 200, json = [''took'' \<mapsto> 3]\<rparr>"
       and run_time_mins = 1 and start_time = 0
       and items = "[(\<lparr>url = ''a'', body = ''1'', sleep_time = 0\<rparr>, 60)]"
       and delta = 60 and request = "\<lparr>url = ''a'', body = ''1'', sleep_time = 0\<rparr>"
       and k = 0
       and effs = "[Pull \<lparr>url = ''a'', body = ''1'', sleep_time = 0\<rparr>, ReadClock 60]"
       and all_tasks = "[\<lparr>task_done = False, task_is_current = False, task_await = Some (ClientError ''reset'')\<rparr>]"]
    drain_semantics
    [where pre = "[\<lparr>task_done = False, task_is_current = False, task_await = Some CancelledError\<rparr>]"
       and t = "\<lparr>task_done = True, task_is_current = False, task_await = None\<rparr>"
       and post = "[\<lparr>task_done = False, task_is_current = True, task_await = None\<rparr>]"]
  by (simp add: pending_tasks_def Let_def)


text \<open>
  C8, as the specification words it, fails for a unit that fails by itself between the
  listing of the pending tasks and its own cancellation: the post raises while the loop
  awaits the task before it, \<^verbatim>\<open>task.cancel()\<close> finds the task done, and the await
  raises the exception of the transport, with which \<^verbatim>\<open>run\<close> ends. The completed unit
  is an error, not a no-op.
\<close>

theorem drain_completed_unit_counterexample:
  "fetch_task False (Inl (ClientError ''reset'')) = FutException (ClientError ''reset'')
   \<and> pending_tasks
        [\<lparr>task_done = False, task_is_current = False, task_await = Some CancelledError\<rparr>,
         completed_before_cancel (fetch_task False (Inl (ClientError ''reset''))),
         \<lparr>task_done = False, task_is_current = True, task_await = None\<rparr>] =
       [\<lparr>task_done = False, task_is_current = False, task_await = Some CancelledError\<rparr>,
        completed_before_cancel (fetch_task False (Inl (ClientError ''reset'')))]
   \<and> drain
        [\<lparr>task_done = False, task_is_current = False, task_await = Some CancelledError\<rparr>,
         completed_before_cancel (fetch_task False (Inl (ClientError ''reset'')))] =
       Inl (ClientError ''reset'')
   \<and> run 1 0 [(\<lparr>url = ''a'', body = ''1'', sleep_time = 0\<rparr>, 60)]
        [\<lparr>task_done = False, task_is_current = False, task_await = Some CancelledError\<rparr>,
         completed_before_cancel (fetch_task False (Inl (ClientError ''reset''))),
         \<lparr>task_done = False, task_is_current = True, task_await = None\<rparr>] =
       Some (Inl (ClientError ''reset''))"
  by (simp add: run_def pending_tasks_def completed_before_cancel_def await_done_def
      fetch_task_def fetch_def Let_def)

subsection \<open>The statistics of a run\<close>

text \<open>
  C9. When the loop has broken and the draining raised nothing, \<^verbatim>\<open>run\<close> returns,
  unless the elapsed time \<open>delta_secs\<close> is zero (which a positive budget excludes, the
  elapsed time being at least the budget): the elapsed minutes \<open>delta_secs / 60\<close>, the
  number of requests sent, the average \<open>sent / delta_secs\<close>, the number of tasks
  pending when the loop was left, \<open>seconds_behind = max (- sleep_time) 0\<close> for the sleep time of the last
  dictionary pulled, and \<open>percentage_behind = seconds_behind / delta_secs\<close>, not clamped:
  with a last sleep time of -120 seconds after 60 seconds it is 2.
\<close>

theorem run_statistics:
  assumes loop: "run_loop (run_time_mins * 60) start_time items 0 [] =
                 Break delta_secs request num_sent effs"
    and drained: "drain (pending_tasks all_tasks) = Inr ()"
  shows "run run_time_mins start_time items all_tasks =
           Some (if delta_secs = 0 then Inl ZeroDivisionError
                 else Inr \<lparr>run_time_minutes = delta_secs / 60,
                           num_sent_requests = num_sent,
                           average_requests_per_second = of_nat num_sent / delta_secs,
                           num_outstanding_requests = length (pending_tasks all_tasks),
                           seconds_behind = max (- sleep_time request) 0,
                           percentage_behind = max (- sleep_time request) 0 / delta_secs\<rparr>)
       \<and> run_time_mins * 60 \<le> delta_secs
       \<and> run 1 0 [(\<lparr>url = ''a'', body = ''1'', sleep_time = 0\<rparr>, 0),
                  (\<lparr>url = ''b'', body = ''2'', sleep_time = - 120\<rparr>, 60)] [] =
           Some (Inr \<lparr>run_time_minutes = 1, num_sent_requests = 1,
                      average_requests_per_second = 1 / 60, num_outstanding_requests = 0,
                      seconds_behind = 120, percentage_behind = 2\<rparr>)"
proof -
  have elapsed: "run_time_mins * 60 \<le> delta_secs"
    by (rule run_loop_Break_exhausted [OF loop])
  have general: "run run_time_mins start_time items all_tasks =
           Some (if delta_secs = 0 then Inl ZeroDivisionError
                 else Inr \<lparr>run_time_minutes = delta_secs / 60,
                           num_sent_requests = num_sent,
                           average_requests_per_second = of_nat num_sent / delta_secs,
                           num_outstanding_requests = length (pending_tasks all_tasks),
                           seconds_behind = max (- sleep_time request) 0,
                           percentage_behind = max (- sleep_time request) 0 / delta_secs\<rparr>)"
    using drained by (simp add: run_Break [OF loop] final_stats_def Let_def)
  have concrete: "run 1 0 [(\<lparr>url = ''a'', body = ''1'', sleep_time = 0\<rparr>, 0),
                  (\<lparr>url = ''b'', body = ''2'', sleep_time = - 120\<rparr>, 60)] [] =
           Some (Inr \<lparr>run_time_minutes = 1, num_sent_requests = 1,
                      average_requests_per_second = 1 / 60, num_outstanding_requests = 0,
                      seconds_behind = 120, percentage_behind = 2\<rparr>)"
    by (simp add: run_def final_stats_def pending_tasks_def Let_def)
  from general elapsed concrete show ?thesis by simp
qed

theorem run_statistics_witness:
  "run 2 1000
     [(\<lparr>url = ''a'', body = ''1'', sleep_time = 1\<rparr>, 1001),
      (\<lparr>url = ''b'', body = ''2'', sleep_time = 3\<rparr>, 1060),
      (\<lparr>url = ''c'', body = ''3'', sleep_time = - 30\<rparr>, 1120)]
     [\<lparr>task_done = True, task_is_current = False, task_await = None\<rparr>,
      \<lparr>task_done = False, task_is_current = False, task_await = Some CancelledError\<rparr>,
      \<lparr>task_done = False, task_is_current = True, task_await = None\<rparr>] =
   Some (Inr \<lparr>run_time_minutes = 2, num_sent_requests = 2,
              average_requests_per_second = 1 / 60, num_outstanding_requests = 1,
              seconds_behind = 30, percentage_behind = 1 / 4\<rparr>)"
  using run_statistics
    [where run_time_mins = 2 and start_time = 1000
       and items = "[(\<lparr>url = ''a'', body = ''1'', sleep_time = 1\<rparr>, 1001),
                     (\<lparr>url = ''b'', body = ''2'', sleep_time = 3\<rparr>, 1060),
                     (\<lparr>url = ''c'', body = ''3'', sleep_time = - 30\<rparr>, 1120)]"
       and delta_secs = 120 and request = "\<lparr>url = ''c'', body = ''3'', sleep_time = - 30\<rparr>"
       and num_sent = 2
       and effs = "[Pull \<lparr>url = ''a'', body = ''1'', sleep_time = 1\<rparr>, ReadClock 1001, Sleep 1,
                    Dispatch ''a'' ''1'',
                    Pull \<lparr>url = ''b'', body = ''2'', sleep_time = 3\<rparr>, ReadClock 1060, Sleep 3,
                    Dispatch ''b'' ''2'',
                    Pull \<lparr>url = ''c'', body = ''3'', sleep_time = - 30\<rparr>, ReadClock 1120]"
       and all_tasks = "[\<lparr>task_done = True, task_is_current = False, task_await = None\<rparr>,
                         \<lparr>task_done = False, task_is_current = False, task_await = Some CancelledError\<rparr>,
                         \<lparr>task_done = False, task_is_current = True, task_await = None\<rparr>]"]
  by (simp add: pending_tasks_def Let_def)


subsection \<open>A dispatched unit and the sink\<close>









end
